theory Spec2Isabelle
  imports Main
begin

section \<open>Data model\<close>

text \<open>
  The persisted entities of \<^verbatim>\<open>diary/models.py\<close> and \<^verbatim>\<open>users/models.py\<close>.
  A table is the list of its rows. The fields \<^verbatim>\<open>preview\<close> and \<^verbatim>\<open>created_at\<close> of an
  entry, and the profile fields of a user, are never read by the code modelled here and
  are left out. The choices of \<^verbatim>\<open>Diary.status\<close> are an enumeration; the view counter
  is Python's unbounded integer.
\<close>

datatype status = Published | No_published | Moderation | Rejected

record diary =
  pk :: "nat option"
  title :: string
  content :: string
  slug :: "string option"
  author :: "nat option"
  is_published :: bool
  status :: status
  views :: int

record user =
  user_pk :: nat
  email :: string
  password :: string
  is_active :: bool
  is_superuser :: bool
  can_moderate :: bool
  verification_code :: "string option"

record mail =
  subject :: string
  message :: string
  recipient_list :: "string list"

record db =
  diaries :: "diary list"
  users :: "user list"
  outbox :: "mail list"

text \<open>\<^verbatim>\<open>request.user\<close>: the anonymous user, or a row of the user table.\<close>

datatype requester = AnonymousUser | Authenticated user

text \<open>
  How a request can end other than by its normal response: the exceptions the code raises
  or lets through, the invalid form that is rendered again with its errors
  (\<open>ValidationError\<close>), and the redirect of \<^verbatim>\<open>LoginRequiredMixin\<close> for an
  anonymous requester.
\<close>

datatype error =
  Http404 | MultipleObjectsReturned | PermissionDenied | AttributeError | DoesNotExist
  | KeyError | ValidationError | RedirectToLogin

section \<open>Queries\<close>

text \<open>
  \<^verbatim>\<open>queryset.filter(slug=s).get()\<close>, as \<^verbatim>\<open>SingleObjectMixin.get_object\<close> and
  \<^verbatim>\<open>get_object_or_404\<close> run it: no row is a 404, one row is returned, several rows
  raise \<^verbatim>\<open>MultipleObjectsReturned\<close>, which neither caller catches.
\<close>

definition filter_slug :: "diary list \<Rightarrow> string \<Rightarrow> diary list" where
  "filter_slug rows s = filter (\<lambda>d. slug d = Some s) rows"

definition get_by_slug :: "diary list \<Rightarrow> string \<Rightarrow> error + diary" where
  "get_by_slug rows s =
     (case filter_slug rows s of
        [] \<Rightarrow> Inl Http404
      | [d] \<Rightarrow> Inr d
      | _ \<Rightarrow> Inl MultipleObjectsReturned)"

text \<open>\<^verbatim>\<open>Diary.objects.filter(pk=k).update(views=F("views") + 1)\<close>: every row with
  that key gets its own stored counter plus one.\<close>

definition incr_views :: "diary list \<Rightarrow> nat option \<Rightarrow> diary list" where
  "incr_views rows k = map (\<lambda>r. if pk r = k then r\<lparr>views := views r + 1\<rparr> else r) rows"

definition refresh_from_db :: "diary list \<Rightarrow> diary \<Rightarrow> error + diary" where
  "refresh_from_db rows d =
     (case find (\<lambda>r. pk r = pk d) rows of None \<Rightarrow> Inl DoesNotExist | Some r \<Rightarrow> Inr r)"

definition get_user :: "user list \<Rightarrow> nat \<Rightarrow> user option" where
  "get_user us k = find (\<lambda>u. user_pk u = k) us"

text \<open>\<^verbatim>\<open>request.user == diary.author\<close>: model instances are equal when their keys
  are; the anonymous user equals no row, and a null author equals no requester.\<close>

fun is_author :: "requester \<Rightarrow> diary \<Rightarrow> bool" where
  "is_author AnonymousUser d = False"
| "is_author (Authenticated u) d = (author d = Some (user_pk u))"

section \<open>Reading an entry: \<^verbatim>\<open>DiaryDetailView.get_object\<close>\<close>

text \<open>The subject line of the notification, in UTF-8.\<close>

definition notification_subject :: string where
  "notification_subject =
     [CHR 0xD0, CHR 0xA3, CHR 0xD0, CHR 0xB2, CHR 0xD0, CHR 0xB5, CHR 0xD0, CHR 0xB4,
      CHR 0xD0, CHR 0xBE, CHR 0xD0, CHR 0xBC, CHR 0xD0, CHR 0xBB, CHR 0xD0, CHR 0xB5,
      CHR 0xD0, CHR 0xBD, CHR 0xD0, CHR 0xB8, CHR 0xD0, CHR 0xB5]"

text \<open>
  The \<^verbatim>\<open>send_mail\<close> call of lines 108 to 119. The template is not part of the
  sources: the body is the title it is rendered from. \<^verbatim>\<open>diary.author.email\<close> on a
  null author is an \<^verbatim>\<open>AttributeError\<close>.
\<close>

definition notification :: "diary \<Rightarrow> user \<Rightarrow> mail" where
  "notification d u =
     \<lparr>subject = notification_subject, message = title d, recipient_list = [email u]\<rparr>"

definition send_notification :: "db \<Rightarrow> diary \<Rightarrow> error + db" where
  "send_notification s d =
     (case author d of
        None \<Rightarrow> Inl AttributeError
      | Some k \<Rightarrow>
          (case get_user (users s) k of
             None \<Rightarrow> Inl DoesNotExist
           | Some u \<Rightarrow> Inr (s\<lparr>outbox := outbox s @ [notification d u]\<rparr>)))"

text \<open>
  The result is the state the request leaves behind and what the method returns or
  raises. The counter update is committed before the mail is sent, so a failing send
  leaves the incremented counter in place.
\<close>

definition get_object :: "db \<Rightarrow> requester \<Rightarrow> string \<Rightarrow> db \<times> (error + diary)" where
  "get_object s req sl =
     (case get_by_slug (diaries s) sl of
        Inl e \<Rightarrow> (s, Inl e)
      | Inr d \<Rightarrow>
          if \<not> is_published d \<and> \<not> is_author req d then (s, Inl PermissionDenied)
          else
            let s1 = (if is_published d
                      then s\<lparr>diaries := incr_views (diaries s) (pk d)\<rparr> else s);
                r = (if is_published d then refresh_from_db (diaries s1) d else Inr d)
            in (case r of
                  Inl e \<Rightarrow> (s1, Inl e)
                | Inr d' \<Rightarrow>
                    if views d' \<ge> 100
                    then (case send_notification s1 d' of
                            Inl e \<Rightarrow> (s1, Inl e)
                          | Inr s2 \<Rightarrow> (s2, Inr d'))
                    else (s1, Inr d')))"

section \<open>Slug assignment: \<^verbatim>\<open>Diary.get_unique_slug\<close> and \<^verbatim>\<open>Diary.save\<close>\<close>

text \<open>Python's \<^verbatim>\<open>str\<close> of a natural number: its decimal digits.\<close>

function str_nat :: "nat \<Rightarrow> string" where
  "str_nat n =
     (if n < 10 then [char_of (48 + n)]
      else str_nat (n div 10) @ [char_of (48 + n mod 10)])"
  by pat_completeness auto
termination
  by (relation "measure id") auto

declare str_nat.simps [simp del]

lemma str_nat_nonempty: "str_nat n \<noteq> []"
  by (subst str_nat.simps) simp

lemma digit_inj:
  "a < 10 \<Longrightarrow> b < 10 \<Longrightarrow> (char_of (48 + a :: nat) :: char) = char_of (48 + b) \<Longrightarrow> a = b"
proof -
  assume a: "a < 10" and b: "b < 10"
    and e: "(char_of (48 + a :: nat) :: char) = char_of (48 + b)"
  have "of_char (char_of (48 + a) :: char) = (of_char (char_of (48 + b) :: char) :: nat)"
    using e by simp
  then have "(48 + a) mod 256 = (48 + b) mod 256" by (simp only: of_char_of)
  with a b show ?thesis by simp
qed

lemma str_nat_inj: "str_nat m = str_nat n \<Longrightarrow> m = n"
proof (induction m arbitrary: n rule: str_nat.induct)
  case (1 m)
  show ?case
  proof (cases "m < 10")
    case mlt: True
    show ?thesis
    proof (cases "n < 10")
      case True
      with mlt "1.prems" show ?thesis
        by (simp add: str_nat.simps[of m] str_nat.simps[of n] digit_inj)
    next
      case False
      with mlt "1.prems" show ?thesis
        using str_nat_nonempty[of "n div 10"]
        by (simp add: str_nat.simps[of m] str_nat.simps[of n])
    qed
  next
    case mge: False
    show ?thesis
    proof (cases "n < 10")
      case True
      with mge "1.prems" show ?thesis
        using str_nat_nonempty[of "m div 10"]
        by (simp add: str_nat.simps[of m] str_nat.simps[of n])
    next
      case False
      with mge "1.prems" have e: "str_nat (m div 10) = str_nat (n div 10)"
        and d: "(char_of (48 + m mod 10) :: char) = char_of (48 + n mod 10)"
        by (simp_all add: str_nat.simps[of m] str_nat.simps[of n])
      from "1.IH"[OF mge e] have "m div 10 = n div 10" .
      moreover have "m mod 10 = n mod 10" using d by (intro digit_inj) simp_all
      ultimately show ?thesis by (metis div_mult_mod_eq)
    qed
  qed
qed

text \<open>\<^verbatim>\<open>Diary.objects.filter(slug=s).exists()\<close> and the candidate
  \<^verbatim>\<open>f"{slug}-{num}"\<close>.\<close>

definition slug_exists :: "diary list \<Rightarrow> string \<Rightarrow> bool" where
  "slug_exists rows s = (filter_slug rows s \<noteq> [])"

definition candidate :: "string \<Rightarrow> nat \<Rightarrow> string" where
  "candidate base num = base @ ''-'' @ str_nat num"

lemma candidate_inj: "inj (candidate base)"
  by (auto simp: inj_on_def candidate_def dest: str_nat_inj)

lemma finite_taken: "finite {k. slug_exists rows (candidate base k)}"
proof -
  have "{k. slug_exists rows (candidate base k)}
          \<subseteq> candidate base -` (the ` slug ` set rows)"
    by (force simp: slug_exists_def filter_slug_def filter_empty_conv image_iff)
  moreover have "finite (candidate base -` (the ` slug ` set rows))"
    by (intro finite_vimageI candidate_inj) simp
  ultimately show ?thesis by (rule finite_subset)
qed

text \<open>
  The \<^verbatim>\<open>while\<close> loop of \<^verbatim>\<open>get_unique_slug\<close>, on its two variables. It ends
  because the candidates are pairwise different and the table is finite: the number of
  taken candidates still ahead goes down.
\<close>

function unique_slug_loop :: "diary list \<Rightarrow> string \<Rightarrow> string \<Rightarrow> nat \<Rightarrow> string" where
  "unique_slug_loop rows base unique_slug num =
     (if slug_exists rows unique_slug
      then unique_slug_loop rows base (candidate base num) (num + 1)
      else unique_slug)"
  by pat_completeness auto
termination
proof (relation "measure (\<lambda>(rows, base, unique_slug, num).
         card {k. num \<le> k \<and> slug_exists rows (candidate base k)} +
         (if slug_exists rows unique_slug then 1 else 0))")
  show "wf (measure (\<lambda>(rows, base, unique_slug, num).
         card {k. num \<le> k \<and> slug_exists rows (candidate base k)} +
         (if slug_exists rows unique_slug then 1 else 0)))"
    by simp
next
  fix rows :: "diary list" and base unique_slug :: string and num :: nat
  assume taken: "slug_exists rows unique_slug"
  let ?A = "\<lambda>n. {k. n \<le> k \<and> slug_exists rows (candidate base k)}"
  have fin: "finite (?A num)"
    by (rule finite_subset[OF _ finite_taken[of rows base]]) auto
  show "((rows, base, candidate base num, num + 1), (rows, base, unique_slug, num))
        \<in> measure (\<lambda>(rows, base, unique_slug, num).
         card {k. num \<le> k \<and> slug_exists rows (candidate base k)} +
         (if slug_exists rows unique_slug then 1 else 0))"
  proof (cases "slug_exists rows (candidate base num)")
    case True
    have "num \<in> ?A num" and "num \<notin> ?A (num + 1)" and "?A (num + 1) \<subseteq> ?A num"
      using True by auto
    then have "?A (num + 1) \<subset> ?A num" by blast
    then have "card (?A (num + 1)) < card (?A num)"
      using fin by (rule psubset_card_mono[rotated])
    then show ?thesis using taken True by simp
  next
    case False
    have "?A (num + 1) = ?A num"
      using False by (auto simp: le_less Suc_le_eq)
    then show ?thesis using taken False by simp
  qed
qed

declare unique_slug_loop.simps [simp del]

text \<open>\<^verbatim>\<open>slugify\<close> is \<^verbatim>\<open>pytils.translit.slugify\<close>, a library function: a parameter.\<close>

definition get_unique_slug :: "(string \<Rightarrow> string) \<Rightarrow> diary list \<Rightarrow> diary \<Rightarrow> string" where
  "get_unique_slug slugify rows self =
     (let s = slugify (title self) in unique_slug_loop rows s s 1)"

text \<open>Python's \<^verbatim>\<open>not self.slug\<close>: true of \<^verbatim>\<open>None\<close> and of the empty string.\<close>

definition falsy :: "string option \<Rightarrow> bool" where
  "falsy x = (x = None \<or> x = Some [])"

text \<open>
  \<^verbatim>\<open>models.Model.save\<close>: an object without a key is inserted under the next key;
  an object with a key overwrites the row of that key, and is inserted when there is none.
\<close>

definition next_pk :: "diary list \<Rightarrow> nat" where
  "next_pk rows = Suc (foldr max (List.map_filter pk rows) 0)"

definition Model_save :: "diary list \<Rightarrow> diary \<Rightarrow> diary list \<times> diary" where
  "Model_save rows self =
     (case pk self of
        None \<Rightarrow> (let self' = self\<lparr>pk := Some (next_pk rows)\<rparr> in (rows @ [self'], self'))
      | Some k \<Rightarrow>
          if list_ex (\<lambda>r. pk r = Some k) rows
          then (map (\<lambda>r. if pk r = Some k then self else r) rows, self)
          else (rows @ [self], self))"

definition Diary_save :: "(string \<Rightarrow> string) \<Rightarrow> diary list \<Rightarrow> diary \<Rightarrow> diary list \<times> diary" where
  "Diary_save slugify rows self =
     Model_save rows
       (if falsy (slug self)
        then self\<lparr>slug := Some (get_unique_slug slugify rows self)\<rparr> else self)"

section \<open>The forms of \<^verbatim>\<open>diary/forms.py\<close>\<close>

text \<open>
  \<^verbatim>\<open>super().save(commit=False)\<close> returns the form's instance with the cleaned
  fields written to it: the argument \<open>instance\<close>.
\<close>

definition DiaryForm_save ::
  "(string \<Rightarrow> string) \<Rightarrow> diary list \<Rightarrow> diary \<Rightarrow> bool \<Rightarrow> diary list \<times> diary" where
  "DiaryForm_save slugify rows instance commit =
     (let diary = (if falsy (slug instance)
                   then instance\<lparr>slug := Some (slugify (title instance))\<rparr> else instance)
      in if commit then Diary_save slugify rows diary else (rows, diary))"

definition DiaryUpdateForm_save ::
  "(string \<Rightarrow> string) \<Rightarrow> diary list \<Rightarrow> diary \<Rightarrow> bool \<Rightarrow> diary list \<times> diary" where
  "DiaryUpdateForm_save slugify rows instance commit =
     (let diary = (if falsy (slug instance)
                   then instance\<lparr>slug := Some (slugify (title instance))\<rparr> else instance)
      in if commit then Diary_save slugify rows diary else (rows, diary))"

section \<open>The views of \<^verbatim>\<open>diary/views.py\<close>\<close>


text \<open>The instance a \<^verbatim>\<open>ModelForm\<close> of a create view starts from: the field defaults.\<close>

definition new_diary :: "string \<Rightarrow> string \<Rightarrow> diary" where
  "new_diary t c = \<lparr>pk = None, title = t, content = c, slug = None, author = None,
     is_published = False, status = No_published, views = 0\<rparr>"

text \<open>
  \<^verbatim>\<open>DiaryCreateView.form_valid\<close>: the form's \<^verbatim>\<open>save(commit=False)\<close>, the author,
  \<^verbatim>\<open>diary.save()\<close>, and then \<^verbatim>\<open>super().form_valid(form)\<close>, which calls
  \<^verbatim>\<open>form.save()\<close> on the same instance once more.
\<close>

definition DiaryCreateView_form_valid ::
  "(string \<Rightarrow> string) \<Rightarrow> db \<Rightarrow> user \<Rightarrow> string \<Rightarrow> string \<Rightarrow> db \<times> diary" where
  "DiaryCreateView_form_valid slugify s u t c =
     (let (rows0, d0) = DiaryForm_save slugify (diaries s) (new_diary t c) False;
          d1 = d0\<lparr>author := Some (user_pk u)\<rparr>;
          (rows1, d2) = Diary_save slugify rows0 d1;
          (rows2, d3) = DiaryForm_save slugify rows1 d2 True
      in (s\<lparr>diaries := rows2\<rparr>, d3))"

definition DiaryCreateView_post ::
  "(string \<Rightarrow> string) \<Rightarrow> db \<Rightarrow> requester \<Rightarrow> (string \<times> string) option \<Rightarrow> db \<times> (error + diary)" where
  "DiaryCreateView_post slugify s req form =
     (case req of
        AnonymousUser \<Rightarrow> (s, Inl RedirectToLogin)
      | Authenticated u \<Rightarrow>
          (case form of
             None \<Rightarrow> (s, Inl ValidationError)
           | Some (t, c) \<Rightarrow>
               (let (s', d) = DiaryCreateView_form_valid slugify s u t c in (s', Inr d))))"

text \<open>\<^verbatim>\<open>get_queryset\<close> of the update and delete views:
  \<^verbatim>\<open>Diary.objects.filter(author=self.request.user)\<close>.\<close>

definition get_queryset :: "diary list \<Rightarrow> user \<Rightarrow> diary list" where
  "get_queryset rows u = filter (\<lambda>d. author d = Some (user_pk u)) rows"

definition DiaryUpdateView_post ::
  "(string \<Rightarrow> string) \<Rightarrow> db \<Rightarrow> requester \<Rightarrow> string \<Rightarrow> (string \<times> string) option
     \<Rightarrow> db \<times> (error + diary)" where
  "DiaryUpdateView_post slugify s req sl form =
     (case req of
        AnonymousUser \<Rightarrow> (s, Inl RedirectToLogin)
      | Authenticated u \<Rightarrow>
          (case get_by_slug (get_queryset (diaries s) u) sl of
             Inl e \<Rightarrow> (s, Inl e)
           | Inr obj \<Rightarrow>
               (case form of
                  None \<Rightarrow> (s, Inl ValidationError)
                | Some (t, c) \<Rightarrow>
                    (let (rows, d) = DiaryUpdateForm_save slugify (diaries s)
                                       (obj\<lparr>title := t, content := c\<rparr>) True
                     in (s\<lparr>diaries := rows\<rparr>, Inr d)))))"

definition DiaryDeleteView_post :: "db \<Rightarrow> requester \<Rightarrow> string \<Rightarrow> db \<times> (error + diary)" where
  "DiaryDeleteView_post s req sl =
     (case req of
        AnonymousUser \<Rightarrow> (s, Inl RedirectToLogin)
      | Authenticated u \<Rightarrow>
          (case get_by_slug (get_queryset (diaries s) u) sl of
             Inl e \<Rightarrow> (s, Inl e)
           | Inr obj \<Rightarrow> (s\<lparr>diaries := filter (\<lambda>r. pk r \<noteq> pk obj) (diaries s)\<rparr>, Inr obj)))"

text \<open>
  \<^verbatim>\<open>permission_required = "diary.can_moderate"\<close>: the permission check of the
  authentication backend passes for an active superuser or an active holder of the
  permission. An authenticated requester without it is refused; an anonymous one is sent
  to the login page.
\<close>

definition has_permission :: "user \<Rightarrow> bool" where
  "has_permission u = (is_active u \<and> (is_superuser u \<or> can_moderate u))"

definition DiaryModerationActionView_post ::
  "(string \<Rightarrow> string) \<Rightarrow> db \<Rightarrow> requester \<Rightarrow> string \<Rightarrow> string list \<Rightarrow> db \<times> (error + diary)" where
  "DiaryModerationActionView_post slugify s req sl POST =
     (case req of
        AnonymousUser \<Rightarrow> (s, Inl RedirectToLogin)
      | Authenticated u \<Rightarrow>
          if \<not> has_permission u then (s, Inl PermissionDenied)
          else
            (case get_by_slug (diaries s) sl of
               Inl e \<Rightarrow> (s, Inl e)
             | Inr d \<Rightarrow>
                 if ''approve'' \<in> set POST
                 then (let (rows, d') = Diary_save slugify (diaries s)
                                          (d\<lparr>status := Published, is_published := True\<rparr>)
                       in (s\<lparr>diaries := rows\<rparr>, Inr d'))
                 else if ''reject'' \<in> set POST
                 then (let (rows, d') = Diary_save slugify (diaries s) (d\<lparr>status := Rejected\<rparr>)
                       in (s\<lparr>diaries := rows\<rparr>, Inr d'))
                 else (s, Inr d)))"

section \<open>Registration: \<^verbatim>\<open>users/forms.py\<close> and \<^verbatim>\<open>users/views.py\<close>\<close>

text \<open>
  The submitted form and the form's \<^verbatim>\<open>cleaned_data\<close> are dictionaries from field
  names to strings. Python's truth test of \<^verbatim>\<open>password1 and password2\<close> fails for
  \<^verbatim>\<open>None\<close> and for the empty string.
\<close>

type_synonym cleaned_data = "string \<rightharpoonup> string"

definition truthy :: "string option \<Rightarrow> bool" where
  "truthy x = (x \<noteq> None \<and> x \<noteq> Some [])"

definition clean_password :: "cleaned_data \<Rightarrow> error + string option" where
  "clean_password cleaned_data =
     (let password1 = cleaned_data ''password1'';
          password2 = cleaned_data ''password2''
      in if truthy password1 \<and> truthy password2 \<and> password1 \<noteq> password2
         then Inl ValidationError else Inr password2)"

text \<open>
  The class \<^verbatim>\<open>UserRegisterForm\<close>: its fields in their order, and the cleaning
  methods it defines, by name.
\<close>

definition UserRegisterForm_fields :: "string list" where
  "UserRegisterForm_fields = [''email'', ''password1'', ''password2'']"

definition UserRegisterForm_methods :: "(string \<times> (cleaned_data \<Rightarrow> error + string option)) list" where
  "UserRegisterForm_methods = [(''clean_password'', clean_password)]"

text \<open>
  The framework's validation of a form, as \<^verbatim>\<open>is_valid\<close> runs it. Each field is
  cleaned in turn: a required field must be present and not empty, and an email must
  pass the email validator, a parameter. Then, if the form has a method named
  \<^verbatim>\<open>clean_\<close> followed by the name of the field, that method is called and its result
  replaces the field's value. A \<^verbatim>\<open>ValidationError\<close> records the field as erroneous
  and removes it from \<^verbatim>\<open>cleaned_data\<close>.
\<close>

definition field_clean :: "(string \<Rightarrow> bool) \<Rightarrow> string \<Rightarrow> string option \<Rightarrow> error + string" where
  "field_clean valid_email name raw =
     (case raw of
        None \<Rightarrow> Inl ValidationError
      | Some v \<Rightarrow>
          if v = [] then Inl ValidationError
          else if name = ''email'' \<and> \<not> valid_email v then Inl ValidationError
          else Inr v)"

fun clean_fields ::
  "(string \<Rightarrow> bool) \<Rightarrow> (string \<times> (cleaned_data \<Rightarrow> error + string option)) list \<Rightarrow>
   (string \<rightharpoonup> string) \<Rightarrow> string list \<Rightarrow> cleaned_data \<times> string list \<Rightarrow>
   cleaned_data \<times> string list" where
  "clean_fields valid_email methods data [] (cleaned, errors) = (cleaned, errors)"
| "clean_fields valid_email methods data (name # names) (cleaned, errors) =
     (case field_clean valid_email name (data name) of
        Inl e \<Rightarrow> clean_fields valid_email methods data names
                   (cleaned(name := None), errors @ [name])
      | Inr v \<Rightarrow>
          (case map_of methods (''clean_'' @ name) of
             None \<Rightarrow> clean_fields valid_email methods data names (cleaned(name \<mapsto> v), errors)
           | Some m \<Rightarrow>
               (case m (cleaned(name \<mapsto> v)) of
                  Inl e \<Rightarrow> clean_fields valid_email methods data names
                             (cleaned(name := None), errors @ [name])
                | Inr v' \<Rightarrow> clean_fields valid_email methods data names
                             (cleaned(name := v'), errors))))"

text \<open>
  The model's part of the validation of a \<^verbatim>\<open>ModelForm\<close>: \<^verbatim>\<open>User.email\<close> has
  \<^verbatim>\<open>max_length=35\<close> and \<^verbatim>\<open>unique=True\<close>.
\<close>

definition post_clean :: "user list \<Rightarrow> cleaned_data \<times> string list \<Rightarrow> cleaned_data \<times> string list" where
  "post_clean us ce =
     (case fst ce ''email'' of
        None \<Rightarrow> ce
      | Some e \<Rightarrow>
          if length e > 35 \<or> list_ex (\<lambda>u. email u = e) us
          then ((fst ce)(''email'' := None), snd ce @ [''email''])
          else ce)"

definition UserRegisterForm_full_clean ::
  "(string \<Rightarrow> bool) \<Rightarrow> user list \<Rightarrow> (string \<rightharpoonup> string) \<Rightarrow> cleaned_data \<times> string list" where
  "UserRegisterForm_full_clean valid_email us data =
     post_clean us
       (clean_fields valid_email UserRegisterForm_methods data UserRegisterForm_fields
          (Map.empty, []))"

text \<open>The confirmation mail: its subject and the fixed part of its body, in UTF-8.\<close>

definition confirmation_subject :: string where
  "confirmation_subject =
     [CHR 0xD0, CHR 0x9F, CHR 0xD0, CHR 0xBE, CHR 0xD0, CHR 0xB4, CHR 0xD1, CHR 0x82,
      CHR 0xD0, CHR 0xB2, CHR 0xD0, CHR 0xB5, CHR 0xD1, CHR 0x80, CHR 0xD0, CHR 0xB6,
      CHR 0xD0, CHR 0xB4, CHR 0xD0, CHR 0xB5, CHR 0xD0, CHR 0xBD, CHR 0xD0, CHR 0xB8,
      CHR 0xD0, CHR 0xB5, CHR 0x20, CHR 0xD0, CHR 0xBF, CHR 0xD0, CHR 0xBE, CHR 0xD1,
      CHR 0x87, CHR 0xD1, CHR 0x82, CHR 0xD1, CHR 0x8B]"

definition confirmation_text :: string where
  "confirmation_text =
     [CHR 0xD0, CHR 0x94, CHR 0xD0, CHR 0xBB, CHR 0xD1, CHR 0x8F, CHR 0x20, CHR 0xD0,
      CHR 0xBF, CHR 0xD0, CHR 0xBE, CHR 0xD0, CHR 0xB4, CHR 0xD1, CHR 0x82, CHR 0xD0,
      CHR 0xB2, CHR 0xD0, CHR 0xB5, CHR 0xD1, CHR 0x80, CHR 0xD0, CHR 0xB6, CHR 0xD0,
      CHR 0xB4, CHR 0xD0, CHR 0xB5, CHR 0xD0, CHR 0xBD, CHR 0xD0, CHR 0xB8, CHR 0xD1,
      CHR 0x8F, CHR 0x20, CHR 0xD0, CHR 0xBF, CHR 0xD0, CHR 0xBE, CHR 0xD1, CHR 0x87,
      CHR 0xD1, CHR 0x82, CHR 0xD1, CHR 0x8B, CHR 0x20, CHR 0xD0, CHR 0xBF, CHR 0xD0,
      CHR 0xB5, CHR 0xD1, CHR 0x80, CHR 0xD0, CHR 0xB5, CHR 0xD0, CHR 0xB9, CHR 0xD0,
      CHR 0xB4, CHR 0xD0, CHR 0xB8, CHR 0xD1, CHR 0x82, CHR 0xD0, CHR 0xB5, CHR 0x20,
      CHR 0xD0, CHR 0xBF, CHR 0xD0, CHR 0xBE, CHR 0x20, CHR 0xD1, CHR 0x81, CHR 0xD1,
      CHR 0x81, CHR 0xD1, CHR 0x8B, CHR 0xD0, CHR 0xBB, CHR 0xD0, CHR 0xBA, CHR 0xD0,
      CHR 0xB5, CHR 0x3A, CHR 0x20]"

definition next_user_pk :: "user list \<Rightarrow> nat" where
  "next_user_pk us = Suc (foldr max (map user_pk us) 0)"

text \<open>
  \<^verbatim>\<open>RegisterView.form_valid\<close>. The password hasher, the random token and the
  request's host are parameters. The new row is inserted by \<^verbatim>\<open>user.save()\<close>; the
  \<^verbatim>\<open>form.save()\<close> of \<^verbatim>\<open>super().form_valid(form)\<close> then writes the same row again.
  \<^verbatim>\<open>cleaned_data["password1"]\<close> on a missing key is a \<^verbatim>\<open>KeyError\<close>.
\<close>

definition RegisterView_form_valid ::
  "(string \<Rightarrow> string) \<Rightarrow> string \<Rightarrow> string \<Rightarrow> db \<Rightarrow> cleaned_data \<Rightarrow> db \<times> (error + user)" where
  "RegisterView_form_valid hasher token host s cleaned =
     (case (cleaned ''email'', cleaned ''password1'') of
        (Some e, Some password1) \<Rightarrow>
          (let u = \<lparr>user_pk = next_user_pk (users s), email = e, password = hasher password1,
                    is_active = False, is_superuser = False, can_moderate = False,
                    verification_code = Some token\<rparr>;
               url = ''http://'' @ host @ ''/users/email-confirm/'' @ token;
               m = \<lparr>subject = confirmation_subject, message = confirmation_text @ url,
                    recipient_list = [email u]\<rparr>
           in (s\<lparr>users := users s @ [u], outbox := outbox s @ [m]\<rparr>, Inr u))
      | _ \<Rightarrow> (s, Inl KeyError))"

definition RegisterView_post ::
  "(string \<Rightarrow> bool) \<Rightarrow> (string \<Rightarrow> string) \<Rightarrow> string \<Rightarrow> string \<Rightarrow> db \<Rightarrow> (string \<rightharpoonup> string)
     \<Rightarrow> db \<times> (error + user)" where
  "RegisterView_post valid_email hasher token host s data =
     (case UserRegisterForm_full_clean valid_email (users s) data of
        (cleaned, []) \<Rightarrow> RegisterView_form_valid hasher token host s cleaned
      | (cleaned, _ # _) \<Rightarrow> (s, Inl ValidationError))"

section \<open>Conditions on tables\<close>


definition flag_ok :: "diary \<Rightarrow> bool" where
  "flag_ok d = (is_published d \<longrightarrow> status d = Published)"

definition flag_inv :: "diary list \<Rightarrow> bool" where
  "flag_inv rows = list_all flag_ok rows"

section \<open>Example data\<close>

definition alice :: user where
  "alice = \<lparr>user_pk = 1, email = ''alice@localhost'', password = ''pw'', is_active = True,
     is_superuser = False, can_moderate = False, verification_code = None\<rparr>"

definition bob :: user where
  "bob = \<lparr>user_pk = 2, email = ''bob@localhost'', password = ''pw'', is_active = True,
     is_superuser = False, can_moderate = True, verification_code = None\<rparr>"

definition draft :: diary where
  "draft = \<lparr>pk = Some 1, title = ''Draft'', content = ''text'', slug = Some ''draft'',
     author = Some 1, is_published = False, status = No_published, views = 100\<rparr>"

definition popular :: diary where
  "popular = \<lparr>pk = Some 2, title = ''Popular'', content = ''text'', slug = Some ''popular'',
     author = Some 1, is_published = True, status = Published, views = 99\<rparr>"

definition orphan :: diary where
  "orphan = \<lparr>pk = Some 3, title = ''Orphan'', content = ''text'', slug = Some ''orphan'',
     author = None, is_published = True, status = Published, views = 99\<rparr>"

definition db0 :: db where
  "db0 = \<lparr>diaries = [draft, popular, orphan], users = [alice, bob], outbox = []\<rparr>"

definition db1 :: db where
  "db1 = \<lparr>diaries = [], users = [alice, bob], outbox = []\<rparr>"

text \<open>A registration form whose two password entries differ.\<close>

definition mismatched :: "string \<rightharpoonup> string" where
  "mismatched = [''email'' \<mapsto> ''carol@localhost'', ''password1'' \<mapsto> ''secret1'',
                 ''password2'' \<mapsto> ''other2'']"

section \<open>Lemmas on the queries\<close>

lemma filter_slug_singleton:
  "filter_slug rows s = [d] \<Longrightarrow> d \<in> set rows \<and> slug d = Some s"
proof -
  assume h: "filter_slug rows s = [d]"
  have "d \<in> set (filter_slug rows s)" using h by simp
  then show ?thesis by (simp add: filter_slug_def)
qed

lemma get_by_slug_Inr:
  "get_by_slug rows s = Inr d \<Longrightarrow> d \<in> set rows \<and> slug d = Some s"
  by (auto simp: get_by_slug_def split: list.splits dest: filter_slug_singleton)

lemma find_incr_views:
  "distinct (map pk rows) \<Longrightarrow> d \<in> set rows \<Longrightarrow>
   find (\<lambda>r. pk r = pk d) (incr_views rows (pk d)) = Some (d\<lparr>views := views d + 1\<rparr>)"
proof (induction rows)
  case Nil
  then show ?case by simp
next
  case (Cons r rows)
  show ?case
  proof (cases "pk r = pk d")
    case True
    with Cons.prems have "r = d" by (auto simp: image_iff)
    then show ?thesis by (simp add: incr_views_def)
  next
    case False
    with Cons show ?thesis by (auto simp: incr_views_def)
  qed
qed

lemma refresh_after_incr:
  "distinct (map pk rows) \<Longrightarrow> d \<in> set rows \<Longrightarrow>
   refresh_from_db (incr_views rows (pk d)) d = Inr (d\<lparr>views := views d + 1\<rparr>)"
  by (simp add: refresh_from_db_def find_incr_views)

lemmas example_defs = db0_def draft_def popular_def orphan_def alice_def bob_def

lemmas read_defs = get_object_def get_by_slug_def filter_slug_def send_notification_def
  get_user_def notification_def incr_views_def refresh_from_db_def

text \<open>What a read does, once the entry is found: the published and the unpublished case.\<close>

lemma get_object_published:
  assumes "distinct (map pk (diaries s))"
    and "get_by_slug (diaries s) sl = Inr d"
    and "is_published d"
  shows "get_object s req sl =
     (if views d + 1 \<ge> 100
      then (case send_notification (s\<lparr>diaries := incr_views (diaries s) (pk d)\<rparr>)
                   (d\<lparr>views := views d + 1\<rparr>) of
              Inl e \<Rightarrow> (s\<lparr>diaries := incr_views (diaries s) (pk d)\<rparr>, Inl e)
            | Inr s2 \<Rightarrow> (s2, Inr (d\<lparr>views := views d + 1\<rparr>)))
      else (s\<lparr>diaries := incr_views (diaries s) (pk d)\<rparr>, Inr (d\<lparr>views := views d + 1\<rparr>)))"
proof -
  have mem: "d \<in> set (diaries s)" using assms(2) by (simp add: get_by_slug_Inr)
  have r: "refresh_from_db (incr_views (diaries s) (pk d)) d = Inr (d\<lparr>views := views d + 1\<rparr>)"
    using assms(1) mem by (rule refresh_after_incr)
  show ?thesis
    using assms(2,3) r by (simp add: get_object_def Let_def)
qed

lemma get_object_unpublished:
  assumes "get_by_slug (diaries s) sl = Inr d"
    and "\<not> is_published d"
  shows "get_object s req sl =
     (if \<not> is_author req d then (s, Inl PermissionDenied)
      else if views d \<ge> 100
      then (case send_notification s d of Inl e \<Rightarrow> (s, Inl e) | Inr s2 \<Rightarrow> (s2, Inr d))
      else (s, Inr d))"
  using assms by (simp add: get_object_def Let_def)

lemmas save_defs = Diary_save_def Model_save_def falsy_def get_unique_slug_def next_pk_def
  DiaryForm_save_def DiaryUpdateForm_save_def slug_exists_def candidate_def





section \<open>Reads of unpublished entries\<close>




section \<open>Reads of published entries\<close>



text \<open>
  Claim C10. A published entry whose author is null and whose counter reaches 100 with
  this read: the read raises \<^verbatim>\<open>AttributeError\<close> at \<^verbatim>\<open>diary.author.email\<close> and
  returns no entry, for every requester. The counter has been incremented all the same.
\<close>

theorem null_author_read:
  assumes "distinct (map pk (diaries s))"
    and "get_by_slug (diaries s) sl = Inr d"
    and "is_published d"
    and "author d = None"
    and "views d + 1 \<ge> 100"
  shows "snd (get_object s req sl) = Inl AttributeError \<and>
         diaries (fst (get_object s req sl)) = incr_views (diaries s) (pk d)"
  using assms(4,5)
  by (simp add: get_object_published[OF assms(1-3)] send_notification_def)

theorem null_author_read_witness:
  "distinct (map pk (diaries db0)) \<and> get_by_slug (diaries db0) ''orphan'' = Inr orphan \<and>
   is_published orphan \<and> author orphan = None \<and> views orphan + 1 \<ge> 100 \<and>
   snd (get_object db0 (Authenticated alice) ''orphan'') = Inl AttributeError"
  using null_author_read[of db0 "''orphan''" orphan "Authenticated alice"]
  by (simp add: read_defs example_defs)

section \<open>Who can read\<close>

text \<open>
  The access check itself: a read of an entry that its slug finds is refused with
  \<^verbatim>\<open>PermissionDenied\<close> exactly when the entry is not published and the requester
  is not its author. The author reads their own unpublished entry, and everybody reads
  a published entry that has an author.
\<close>

lemma denied_iff:
  assumes "distinct (map pk (diaries s))" and "get_by_slug (diaries s) sl = Inr d"
  shows "snd (get_object s req sl) = Inl PermissionDenied \<longleftrightarrow>
         \<not> is_published d \<and> \<not> is_author req d"
proof (cases "is_published d")
  case True
  then show ?thesis
    by (auto simp: get_object_published[OF assms True] send_notification_def
             split: option.splits)
next
  case False
  then show ?thesis
    by (auto simp: get_object_unpublished[OF assms(2) False] send_notification_def
             split: option.splits)
qed

lemma owner_reads_unpublished:
  assumes "get_by_slug (diaries s) sl = Inr d" and "\<not> is_published d"
    and "author d = Some (user_pk u)" and "get_user (users s) (user_pk u) = Some u"
  shows "snd (get_object s (Authenticated u) sl) = Inr d"
  using assms(3,4)
  by (simp add: get_object_unpublished[OF assms(1,2)] send_notification_def)

lemma read_succeeds_with_author:
  assumes "distinct (map pk (diaries s))" and "get_by_slug (diaries s) sl = Inr d"
    and "is_published d"
    and "author d = Some k" and "get_user (users s) k = Some u"
  shows "snd (get_object s req sl) = Inr (d\<lparr>views := views d + 1\<rparr>)"
  using assms(4,5)
  by (simp add: get_object_published[OF assms(1-3)] send_notification_def)

text \<open>
  Claim C2 at a concrete input: \<open>orphan\<close> is published, so the claim has the read
  succeed for every requester; the anonymous read ends in \<^verbatim>\<open>AttributeError\<close>,
  which is neither the entry nor \<^verbatim>\<open>PermissionDenied\<close>.
\<close>

theorem published_read_fails:
  "get_by_slug (diaries db0) ''orphan'' = Inr orphan \<and> is_published orphan \<and>
   snd (get_object db0 AnonymousUser ''orphan'') = Inl AttributeError"
  by (simp add: read_defs example_defs)

section \<open>Submitting for moderation: \<^verbatim>\<open>DiaryDetailView.post\<close>\<close>





section \<open>Moderation: \<^verbatim>\<open>DiaryModerationActionView.post\<close>\<close>



section \<open>Editing and deleting: the owner's queryset\<close>

lemma get_by_slug_Inr_iff: "get_by_slug rows s = Inr d \<longleftrightarrow> filter_slug rows s = [d]"
  by (auto simp: get_by_slug_def split: list.splits)

lemma filter_slug_get_queryset:
  "filter_slug (get_queryset rows u) s = filter (\<lambda>d. author d = Some (user_pk u)) (filter_slug rows s)"
  by (induction rows) (auto simp: filter_slug_def get_queryset_def)

lemma get_queryset_not_author:
  assumes "get_by_slug rows sl = Inr d" and "author d \<noteq> Some (user_pk u)"
  shows "get_by_slug (get_queryset rows u) sl = Inl Http404"
proof -
  have "filter_slug rows sl = [d]" using assms(1) by (simp add: get_by_slug_Inr_iff)
  then have "filter_slug (get_queryset rows u) sl = []"
    using assms(2) by (simp add: filter_slug_get_queryset)
  then show ?thesis by (simp add: get_by_slug_def)
qed

text \<open>
  Claim C9, as stated, at a concrete input: \<open>bob\<close> is logged in and is not the author
  of \<open>draft\<close>. His update and his delete of it are answered with \<^verbatim>\<open>Http404\<close>,
  the not-found response, not with \<^verbatim>\<open>PermissionDenied\<close>.
\<close>

theorem update_delete_not_found:
  "get_by_slug (diaries db0) ''draft'' = Inr draft \<and> \<not> is_author (Authenticated bob) draft \<and>
   snd (DiaryUpdateView_post (\<lambda>t. t) db0 (Authenticated bob) ''draft'' (Some (''New'', ''text'')))
     = Inl Http404 \<and>
   snd (DiaryDeleteView_post db0 (Authenticated bob) ''draft'') = Inl Http404"
  by (simp add: DiaryUpdateView_post_def DiaryDeleteView_post_def get_queryset_def
        read_defs example_defs)

text \<open>
  Claim C9, amended. An update or a delete of an existing entry by a requester who is
  not its author fails and leaves the whole state as it was. For a logged-in requester
  the failure is \<^verbatim>\<open>Http404\<close>: both views look the entry up among the requester's own
  entries only. For an anonymous requester it is the redirect to the login page.
\<close>

theorem update_delete_not_author:
  assumes "get_by_slug (diaries s) sl = Inr d" and "\<not> is_author req d"
  shows "DiaryUpdateView_post slugify s req sl form =
           (s, Inl (case req of AnonymousUser \<Rightarrow> RedirectToLogin | Authenticated u \<Rightarrow> Http404)) \<and>
         DiaryDeleteView_post s req sl =
           (s, Inl (case req of AnonymousUser \<Rightarrow> RedirectToLogin | Authenticated u \<Rightarrow> Http404))"
proof (cases req)
  case AnonymousUser
  then show ?thesis by (simp add: DiaryUpdateView_post_def DiaryDeleteView_post_def)
next
  case (Authenticated u)
  then have "author d \<noteq> Some (user_pk u)" using assms(2) by simp
  then have "get_by_slug (get_queryset (diaries s) u) sl = Inl Http404"
    using assms(1) by (intro get_queryset_not_author)
  then show ?thesis
    using Authenticated by (simp add: DiaryUpdateView_post_def DiaryDeleteView_post_def)
qed

theorem update_delete_not_author_witness:
  "get_by_slug (diaries db0) ''popular'' = Inr popular \<and>
   \<not> is_author (Authenticated bob) popular \<and> \<not> is_author AnonymousUser popular \<and>
   DiaryUpdateView_post (\<lambda>t. t) db0 (Authenticated bob) ''popular'' None = (db0, Inl Http404) \<and>
   DiaryDeleteView_post db0 (Authenticated bob) ''popular'' = (db0, Inl Http404) \<and>
   DiaryDeleteView_post db0 AnonymousUser ''popular'' = (db0, Inl RedirectToLogin)"
  using update_delete_not_author[of db0 "''popular''" popular "Authenticated bob" "\<lambda>t. t" None]
    update_delete_not_author[of db0 "''popular''" popular AnonymousUser "\<lambda>t. t" None]
  by (simp add: read_defs example_defs)

section \<open>The published flag and the status\<close>

lemma flag_inv_iff: "flag_inv rows \<longleftrightarrow> (\<forall>d \<in> set rows. flag_ok d)"
  by (simp add: flag_inv_def list_all_iff)

lemma flag_inv_incr_views: "flag_inv rows \<Longrightarrow> flag_inv (incr_views rows k)"
  by (auto simp: flag_inv_iff incr_views_def flag_ok_def)

lemma flag_inv_Model_save:
  "flag_inv rows \<Longrightarrow> flag_ok self \<Longrightarrow>
   flag_inv (fst (Model_save rows self)) \<and> flag_ok (snd (Model_save rows self))"
  by (auto simp: flag_inv_iff Model_save_def Let_def flag_ok_def split: option.splits)

lemma flag_inv_Diary_save:
  assumes "flag_inv rows" and "flag_ok self"
  shows "flag_inv (fst (Diary_save slugify rows self)) \<and> flag_ok (snd (Diary_save slugify rows self))"
proof -
  have "flag_ok (if falsy (slug self)
        then self\<lparr>slug := Some (get_unique_slug slugify rows self)\<rparr> else self)"
    using assms(2) by (simp add: flag_ok_def)
  then show ?thesis unfolding Diary_save_def by (rule flag_inv_Model_save[OF assms(1)])
qed

lemma flag_inv_DiaryForm_save:
  assumes "flag_inv rows" and "flag_ok instance"
  shows "flag_inv (fst (DiaryForm_save slugify rows instance commit)) \<and>
         flag_ok (snd (DiaryForm_save slugify rows instance commit))"
proof -
  have "flag_ok (if falsy (slug instance)
        then instance\<lparr>slug := Some (slugify (title instance))\<rparr> else instance)"
    using assms(2) by (simp add: flag_ok_def)
  then show ?thesis
    using assms(1) flag_inv_Diary_save[OF assms(1)]
    by (simp add: DiaryForm_save_def Let_def)
qed

lemma flag_inv_DiaryUpdateForm_save:
  assumes "flag_inv rows" and "flag_ok instance"
  shows "flag_inv (fst (DiaryUpdateForm_save slugify rows instance commit)) \<and>
         flag_ok (snd (DiaryUpdateForm_save slugify rows instance commit))"
proof -
  have "flag_ok (if falsy (slug instance)
        then instance\<lparr>slug := Some (slugify (title instance))\<rparr> else instance)"
    using assms(2) by (simp add: flag_ok_def)
  then show ?thesis
    using assms(1) flag_inv_Diary_save[OF assms(1)]
    by (simp add: DiaryUpdateForm_save_def Let_def)
qed

lemma flag_inv_get_object:
  assumes "flag_inv (diaries s)"
  shows "flag_inv (diaries (fst (get_object s req sl)))"
  using assms flag_inv_incr_views[OF assms]
  by (auto simp: get_object_def Let_def send_notification_def
           split: sum.splits option.splits)

lemma flag_inv_create:
  assumes "flag_inv (diaries s)"
  shows "flag_inv (diaries (fst (DiaryCreateView_post slugify s req form)))"
proof (cases req)
  case AnonymousUser
  then show ?thesis using assms by (simp add: DiaryCreateView_post_def)
next
  case (Authenticated u)
  show ?thesis
  proof (cases form)
    case None
    then show ?thesis using assms Authenticated by (simp add: DiaryCreateView_post_def)
  next
    case (Some tc)
    obtain t c where tc: "tc = (t, c)" by (cases tc)
    obtain rows0 d0 where s0: "DiaryForm_save slugify (diaries s) (new_diary t c) False = (rows0, d0)"
      by (cases "DiaryForm_save slugify (diaries s) (new_diary t c) False")
    have "flag_ok (new_diary t c)" by (simp add: flag_ok_def new_diary_def)
    from flag_inv_DiaryForm_save[OF assms this, of slugify False] s0
    have i0: "flag_inv rows0" "flag_ok d0" by simp_all
    obtain rows1 d2 where s1: "Diary_save slugify rows0 (d0\<lparr>author := Some (user_pk u)\<rparr>) = (rows1, d2)"
      by (cases "Diary_save slugify rows0 (d0\<lparr>author := Some (user_pk u)\<rparr>)")
    have "flag_ok (d0\<lparr>author := Some (user_pk u)\<rparr>)" using i0(2) by (simp add: flag_ok_def)
    from flag_inv_Diary_save[OF i0(1) this, of slugify] s1
    have i1: "flag_inv rows1" "flag_ok d2" by simp_all
    obtain rows2 d3 where s2: "DiaryForm_save slugify rows1 d2 True = (rows2, d3)"
      by (cases "DiaryForm_save slugify rows1 d2 True")
    from flag_inv_DiaryForm_save[OF i1, of slugify True] s2
    have "flag_inv rows2" by simp
    then show ?thesis
      using Authenticated Some tc s0 s1 s2
      by (simp add: DiaryCreateView_post_def DiaryCreateView_form_valid_def)
  qed
qed

lemma flag_inv_update:
  assumes "flag_inv (diaries s)"
  shows "flag_inv (diaries (fst (DiaryUpdateView_post slugify s req sl form)))"
proof (cases req)
  case AnonymousUser
  then show ?thesis using assms by (simp add: DiaryUpdateView_post_def)
next
  case (Authenticated u)
  show ?thesis
  proof (cases "get_by_slug (get_queryset (diaries s) u) sl")
    case (Inl e)
    then show ?thesis using assms Authenticated by (simp add: DiaryUpdateView_post_def)
  next
    case (Inr obj)
    then have "obj \<in> set (get_queryset (diaries s) u)" by (simp add: get_by_slug_Inr)
    then have "obj \<in> set (diaries s)" by (simp add: get_queryset_def)
    then have ok: "flag_ok obj" using assms by (simp add: flag_inv_iff)
    show ?thesis
    proof (cases form)
      case None
      then show ?thesis using assms Authenticated Inr by (simp add: DiaryUpdateView_post_def)
    next
      case (Some tc)
      obtain t c where tc: "tc = (t, c)" by (cases tc)
      have "flag_ok (obj\<lparr>title := t, content := c\<rparr>)" using ok by (simp add: flag_ok_def)
      from flag_inv_DiaryUpdateForm_save[OF assms this, of slugify True]
      show ?thesis
        using Authenticated Inr Some tc
        by (simp add: DiaryUpdateView_post_def split_beta)
    qed
  qed
qed

lemma flag_inv_delete:
  assumes "flag_inv (diaries s)"
  shows "flag_inv (diaries (fst (DiaryDeleteView_post s req sl)))"
  using assms
  by (auto simp: DiaryDeleteView_post_def flag_inv_iff split: requester.splits sum.splits)

lemma flag_inv_approve:
  assumes "flag_inv (diaries s)" and "''approve'' \<in> set POST \<or> ''reject'' \<notin> set POST"
  shows "flag_inv (diaries (fst (DiaryModerationActionView_post slugify s req sl POST)))"
proof (cases req)
  case AnonymousUser
  then show ?thesis using assms by (simp add: DiaryModerationActionView_post_def)
next
  case (Authenticated u)
  show ?thesis
  proof (cases "get_by_slug (diaries s) sl")
    case (Inl e)
    then show ?thesis using assms Authenticated by (simp add: DiaryModerationActionView_post_def)
  next
    case (Inr d)
    have "flag_ok (d\<lparr>status := Published, is_published := True\<rparr>)" by (simp add: flag_ok_def)
    from flag_inv_Diary_save[OF assms(1) this, of slugify]
    show ?thesis
      using assms Authenticated Inr
      by (auto simp: DiaryModerationActionView_post_def split_beta)
  qed
qed

text \<open>
  Claim C6, as stated, at a concrete input: in \<open>db0\<close> every entry with the published
  flag has the status \<open>Published\<close>; after the moderator \<open>bob\<close> rejects \<open>popular\<close>
  this is no longer so, since a rejection sets the status and leaves the flag.
\<close>

theorem reject_breaks_flag_inv:
  "flag_inv (diaries db0) \<and> has_permission bob \<and>
   \<not> flag_inv (diaries (fst (DiaryModerationActionView_post (\<lambda>t. t) db0 (Authenticated bob)
        ''popular'' [''reject''])))"
  by (simp add: DiaryModerationActionView_post_def has_permission_def flag_inv_def flag_ok_def
        read_defs example_defs save_defs)

text \<open>
  Claim C6, amended. That every entry with the published flag has the status
  \<open>Published\<close> is preserved by a read, by the creation of an entry, by an update, by
  a delete, and by every moderator's POST other than an effective rejection.
\<close>

theorem flag_inv_preserved:
  assumes "flag_inv (diaries s)"
  shows "flag_inv (diaries (fst (get_object s req sl))) \<and>
         flag_inv (diaries (fst (DiaryCreateView_post slugify s req form))) \<and>
         flag_inv (diaries (fst (DiaryUpdateView_post slugify s req sl form))) \<and>
         flag_inv (diaries (fst (DiaryDeleteView_post s req sl))) \<and>
         (''approve'' \<in> set POST \<or> ''reject'' \<notin> set POST \<longrightarrow>
            flag_inv (diaries (fst (DiaryModerationActionView_post slugify s req sl POST))))"
  using flag_inv_get_object[OF assms] flag_inv_create[OF assms] flag_inv_update[OF assms]
    flag_inv_delete[OF assms] flag_inv_approve[OF assms]
  by blast

theorem flag_inv_preserved_witness:
  "flag_inv (diaries db0) \<and>
   flag_inv (diaries (fst (get_object db0 AnonymousUser ''popular''))) \<and>
   flag_inv (diaries (fst (DiaryCreateView_post (\<lambda>t. t) db0 (Authenticated alice)
      (Some (''hello'', ''text''))))) \<and>
   flag_inv (diaries (fst (DiaryUpdateView_post (\<lambda>t. t) db0 (Authenticated alice) ''popular''
      (Some (''hello'', ''text''))))) \<and>
   flag_inv (diaries (fst (DiaryDeleteView_post db0 (Authenticated alice) ''popular''))) \<and>
   flag_inv (diaries (fst (DiaryModerationActionView_post (\<lambda>t. t) db0 (Authenticated bob) ''draft''
      [''approve''])))"
proof -
  have h: "flag_inv (diaries db0)" by (simp add: flag_inv_def flag_ok_def example_defs)
  show ?thesis
    using h
      flag_inv_preserved[OF h, of AnonymousUser "''popular''"]
      flag_inv_preserved[OF h, of "Authenticated alice" "''popular''" "\<lambda>t. t"
        "Some (''hello'', ''text'')"]
      flag_inv_preserved[OF h, of "Authenticated bob" "''draft''" "\<lambda>t. t" _ "[''approve'']"]
    by simp
qed

section \<open>Uniqueness of slugs\<close>

text \<open>
  The loop of \<^verbatim>\<open>get_unique_slug\<close> returns a slug that no row has. But the create
  view reaches \<^verbatim>\<open>Diary.save\<close> only after \<^verbatim>\<open>DiaryForm.save\<close> has set the slug to
  the bare \<^verbatim>\<open>slugify(title)\<close>, so \<^verbatim>\<open>if not self.slug\<close> is false there and the
  loop does not run: an entry created through the form gets the bare slug, whatever the
  table holds.
\<close>

lemma unique_slug_loop_fresh: "\<not> slug_exists rows (unique_slug_loop rows base unique_slug num)"
proof (induction rows base unique_slug num rule: unique_slug_loop.induct)
  case (1 rows base unique_slug num)
  then show ?case by (subst unique_slug_loop.simps) simp
qed

lemma get_unique_slug_fresh: "\<not> slug_exists rows (get_unique_slug slugify rows self)"
  by (simp add: get_unique_slug_def Let_def unique_slug_loop_fresh)

lemma create_slug:
  assumes "slugify t \<noteq> []"
  shows "slug (snd (DiaryCreateView_form_valid slugify s u t c)) = Some (slugify t)"
  using assms
  by (simp add: DiaryCreateView_form_valid_def DiaryForm_save_def Diary_save_def Model_save_def
        falsy_def new_diary_def Let_def split_beta)

text \<open>
  Claim C7 at a concrete input: two entries are created through the create view with
  the same title \<open>hello\<close>, which \<^verbatim>\<open>slugify\<close> leaves as it is. Both rows get the slug
  \<open>hello\<close>, and reading that slug raises \<^verbatim>\<open>MultipleObjectsReturned\<close>.
\<close>

theorem duplicate_slugs:
  "map slug (diaries (fst (DiaryCreateView_post (\<lambda>t. t)
      (fst (DiaryCreateView_post (\<lambda>t. t) db1 (Authenticated alice) (Some (''hello'', ''first''))))
      (Authenticated bob) (Some (''hello'', ''second''))))) = [Some ''hello'', Some ''hello''] \<and>
   snd (get_object (fst (DiaryCreateView_post (\<lambda>t. t)
      (fst (DiaryCreateView_post (\<lambda>t. t) db1 (Authenticated alice) (Some (''hello'', ''first''))))
      (Authenticated bob) (Some (''hello'', ''second'')))) (Authenticated alice) ''hello'')
     = Inl MultipleObjectsReturned"
  by (simp add: DiaryCreateView_post_def DiaryCreateView_form_valid_def new_diary_def db1_def
        read_defs example_defs save_defs Let_def List.map_filter_def)

section \<open>Registration with two different passwords\<close>

lemmas register_defs = RegisterView_post_def RegisterView_form_valid_def
  UserRegisterForm_full_clean_def UserRegisterForm_fields_def UserRegisterForm_methods_def
  post_clean_def field_clean_def next_user_pk_def clean_password_def truthy_def

text \<open>
  \<^verbatim>\<open>clean_password\<close> rejects the form \<open>mismatched\<close> when it is called. It is never
  called: the form has no field named \<^verbatim>\<open>password\<close>, and the framework calls a
  method \<^verbatim>\<open>clean_\<close>\<open>name\<close> only for a field \<open>name\<close>.
\<close>

lemma clean_password_mismatch:
  "clean_password mismatched = Inl ValidationError"
  by (simp add: clean_password_def truthy_def mismatched_def)

lemma clean_password_not_called:
  "\<forall>name \<in> set UserRegisterForm_fields. map_of UserRegisterForm_methods (''clean_'' @ name) = None"
  by (simp add: UserRegisterForm_fields_def UserRegisterForm_methods_def)

text \<open>
  Claim C8 at a concrete input: the registration form \<open>mismatched\<close>, whose two
  passwords differ, is valid; the request creates the account of \<open>carol\<close> with the
  first password and the table of users has grown by one row.
\<close>

theorem mismatched_passwords_register:
  "mismatched ''password1'' \<noteq> mismatched ''password2'' \<and>
   map email (users db1) = [''alice@localhost'', ''bob@localhost''] \<and>
   snd (RegisterView_post (\<lambda>e. CHR ''@'' \<in> set e) (\<lambda>p. ''hash:'' @ p) ''c0de'' ''host'' db1 mismatched)
     = Inr \<lparr>user_pk = 3, email = ''carol@localhost'', password = ''hash:secret1'',
            is_active = False, is_superuser = False, can_moderate = False,
            verification_code = Some ''c0de''\<rparr> \<and>
   map email (users (fst (RegisterView_post (\<lambda>e. CHR ''@'' \<in> set e) (\<lambda>p. ''hash:'' @ p) ''c0de''
      ''host'' db1 mismatched))) = [''alice@localhost'', ''bob@localhost'', ''carol@localhost'']"
  by (simp add: register_defs mismatched_def db1_def example_defs Let_def numeral_3_eq_3)

end
